theory Spec2Isabelle
  imports Complex_Main "HOL-Library.Log_Nat"
begin

section \<open>Data model\<close>

text \<open>
  The persistent collections of the application (Mongoose models \<open>Saldo\<close>,
  \<open>Transaction\<close>, \<open>Category\<close>) are lists of documents in stored order. Document
  identifiers (ObjectIds) are natural numbers. Amounts are JavaScript numbers in the
  source; they are integers here (integer-valued doubles below \<open>2^53\<close> add and
  subtract exactly), and nothing in the request schemas makes an amount positive.
  Text is Latin-1: a character is a code unit below 256.
\<close>

datatype ttype = income | expense

record saldo =
  s_id :: nat
  s_name :: string
  s_amount :: int
  s_description :: string

record transaction =
  t_id :: nat
  t_user :: nat
  t_category :: nat
  t_saldo :: nat
  t_amount :: int
  t_description :: string
  t_type :: ttype

record category =
  c_id :: nat
  c_name :: string
  c_type :: ttype
  c_description :: string

record db =
  saldos :: "saldo list"
  transactions :: "transaction list"
  categories :: "category list"
  next_id :: nat

text \<open>The JSON answers of the handlers, by what they report.\<close>

datatype response =
    Success
  | ValidationFailed
  | SaldoNotFound
  | TransactionNotFound
  | OriginalSaldoNotFound
  | NewSaldoNotFound
  | InsufficientBalance
  | InsufficientData
  | ServerError

subsection \<open>Identifiers in request bodies\<close>

text \<open>
  A request body names a document by a string, which the schemas of the routes check
  for being a string only. \<open>Canonical n\<close> is the string that \<open>toString()\<close> gives for the
  identifier \<open>n\<close> (24 lower-case hexadecimal digits); \<open>Respelled n\<close> is another string
  that casts to the same identifier (the digits in upper case); \<open>Uncastable\<close> is a
  non-empty string that is no ObjectId; \<open>EmptyString\<close> is the empty string. A query by
  an identifier, and a document or an update with a reference, reject a string that
  does not cast. The identifier in the URL of a route is well-formed.
\<close>

datatype id_string = Canonical nat | Respelled nat | Uncastable | EmptyString

fun castObjectId :: "id_string \<Rightarrow> nat option" where
  "castObjectId (Canonical n) = Some n"
| "castObjectId (Respelled n) = Some n"
| "castObjectId Uncastable = None"
| "castObjectId EmptyString = None"

subsection \<open>Repository operations\<close>

definition Saldo_findById :: "saldo list \<Rightarrow> nat \<Rightarrow> saldo option" where
  "Saldo_findById ss i = find (\<lambda>s. s_id s = i) ss"

definition Saldo_save :: "saldo \<Rightarrow> saldo list \<Rightarrow> saldo list" where
  "Saldo_save s ss = map (\<lambda>x. if s_id x = s_id s then s else x) ss"

definition Transaction_findById :: "transaction list \<Rightarrow> nat \<Rightarrow> transaction option" where
  "Transaction_findById ts i = find (\<lambda>t. t_id t = i) ts"

definition Transaction_deleteOne :: "nat \<Rightarrow> transaction list \<Rightarrow> transaction list" where
  "Transaction_deleteOne i ts = filter (\<lambda>t. t_id t \<noteq> i) ts"

text \<open>
  \<open>Transaction.create\<close> stores a new document under a fresh identifier; the counter
  \<open>next_id\<close> of the database stands for the ObjectId generator.
\<close>

definition Transaction_create ::
  "nat \<Rightarrow> nat \<Rightarrow> nat \<Rightarrow> int \<Rightarrow> string \<Rightarrow> ttype \<Rightarrow> db \<Rightarrow> db" where
  "Transaction_create u c s a d ty dbs =
     dbs\<lparr>transactions := transactions dbs @
            [\<lparr>t_id = next_id dbs, t_user = u, t_category = c, t_saldo = s,
              t_amount = a, t_description = d, t_type = ty\<rparr>],
         next_id := Suc (next_id dbs)\<rparr>"

section \<open>Transaction routes\<close>

subsection \<open>Plain creation: \<open>router.post("")\<close>\<close>

record create_body =
  b_user :: id_string
  b_category :: id_string
  b_saldo :: id_string
  b_amount :: int
  b_description :: string
  b_type :: ttype

text \<open>
  The part of the validation schema that the typed request leaves open: the user, the
  category and the saldo are non-empty strings, and the description is a non-empty
  string of at most 1024 characters.
\<close>

definition description_ok :: "string \<Rightarrow> bool" where
  "description_ok d = (d \<noteq> [] \<and> length d \<le> 1024)"

text \<open>
  \<open>Saldo.findById\<close> throws on a string that does not cast, before anything is written.
  \<open>Transaction.create\<close> comes after \<open>saldo.save()\<close>: when it rejects a user or a
  category that does not cast, the saldo is already written.
\<close>

definition createTransaction :: "db \<Rightarrow> create_body \<Rightarrow> response \<times> db" where
  "createTransaction dbs b =
     (if b_user b = EmptyString \<or> b_category b = EmptyString \<or> b_saldo b = EmptyString \<or>
         \<not> description_ok (b_description b)
      then (ValidationFailed, dbs)
      else case castObjectId (b_saldo b) of
        None \<Rightarrow> (ServerError, dbs)
      | Some saldoId \<Rightarrow>
          (case Saldo_findById (saldos dbs) saldoId of
             None \<Rightarrow> (SaldoNotFound, dbs)
           | Some sal \<Rightarrow>
               let sal' = (case b_type b of
                             income \<Rightarrow> sal\<lparr>s_amount := s_amount sal + b_amount b\<rparr>
                           | expense \<Rightarrow> sal\<lparr>s_amount := s_amount sal - b_amount b\<rparr>);
                   dbs1 = dbs\<lparr>saldos := Saldo_save sal' (saldos dbs)\<rparr>
               in (case castObjectId (b_user b) of
                     None \<Rightarrow> (ServerError, dbs1)
                   | Some user \<Rightarrow>
                       (case castObjectId (b_category b) of
                          None \<Rightarrow> (ServerError, dbs1)
                        | Some category \<Rightarrow>
                            (Success,
                             Transaction_create user category saldoId (b_amount b)
                               (b_description b) (b_type b) dbs1)))))"

subsection \<open>Update: \<open>router.put("/:id")\<close>\<close>

text \<open>
  Every field of the request body is optional. \<open>None\<close> is a field that the body omits
  (\<open>undefined\<close> in the handler).
\<close>

record patch =
  p_category :: "id_string option"
  p_saldo :: "id_string option"
  p_amount :: "int option"
  p_description :: "string option"
  p_type :: "ttype option"

definition patch_ok :: "patch \<Rightarrow> bool" where
  "patch_ok p = (case p_description p of None \<Rightarrow> True | Some d \<Rightarrow> description_ok d)"

text \<open>Reverting the saldo change of the stored transaction.\<close>

definition revert :: "transaction \<Rightarrow> saldo \<Rightarrow> saldo" where
  "revert t sal =
     (case t_type t of
        income \<Rightarrow> sal\<lparr>s_amount := s_amount sal - t_amount t\<rparr>
      | expense \<Rightarrow> sal\<lparr>s_amount := s_amount sal + t_amount t\<rparr>)"

text \<open>
  Applying the new values reads \<open>req.body.type\<close> and \<open>req.body.amount\<close> only. With the
  type omitted neither branch of the handler runs and the saldo is left as it is. With
  the type given and the amount omitted the sum is \<open>NaN\<close>, which the Number path of the
  Mongoose document refuses, so that the following \<open>save()\<close> rejects and the handler
  throws before it has written anything: that is \<open>None\<close>.
\<close>

definition apply_body :: "patch \<Rightarrow> saldo \<Rightarrow> saldo option" where
  "apply_body p sal =
     (case p_type p of
        None \<Rightarrow> Some sal
      | Some ty \<Rightarrow>
          (case p_amount p of
             None \<Rightarrow> None
           | Some a \<Rightarrow>
               (case ty of
                  income \<Rightarrow> Some (sal\<lparr>s_amount := s_amount sal + a\<rparr>)
                | expense \<Rightarrow> Some (sal\<lparr>s_amount := s_amount sal - a\<rparr>))))"

text \<open>
  \<open>findByIdAndUpdate(id, req.body)\<close> casts the body and sets the fields that it gives.
  It rejects a category or a saldo that does not cast, and then sets nothing.
\<close>

definition patch_castable :: "patch \<Rightarrow> bool" where
  "patch_castable p =
     ((case p_category p of None \<Rightarrow> True | Some c \<Rightarrow> castObjectId c \<noteq> None) \<and>
      (case p_saldo p of None \<Rightarrow> True | Some s \<Rightarrow> castObjectId s \<noteq> None))"

definition set_reference :: "id_string option \<Rightarrow> nat \<Rightarrow> nat" where
  "set_reference r old =
     (case r of
        None \<Rightarrow> old
      | Some s \<Rightarrow> (case castObjectId s of None \<Rightarrow> old | Some n \<Rightarrow> n))"

definition apply_patch :: "patch \<Rightarrow> transaction \<Rightarrow> transaction" where
  "apply_patch p t =
     t\<lparr>t_category := set_reference (p_category p) (t_category t),
       t_saldo := set_reference (p_saldo p) (t_saldo t),
       t_amount := (case p_amount p of None \<Rightarrow> t_amount t | Some a \<Rightarrow> a),
       t_description := (case p_description p of None \<Rightarrow> t_description t | Some d \<Rightarrow> d),
       t_type := (case p_type p of None \<Rightarrow> t_type t | Some ty \<Rightarrow> ty)\<rparr>"

definition Transaction_findByIdAndUpdate ::
  "nat \<Rightarrow> patch \<Rightarrow> transaction list \<Rightarrow> transaction list" where
  "Transaction_findByIdAndUpdate i p ts =
     map (\<lambda>t. if t_id t = i then apply_patch p t else t) ts"

text \<open>
  \<open>req.body.saldo && req.body.saldo !== existingTransaction.saldo.toString()\<close>: the
  empty string is falsy, and the strings are compared as they are written, so that
  another spelling of the saldo of the transaction counts as a changed saldo.
\<close>

definition saldo_changed :: "patch \<Rightarrow> transaction \<Rightarrow> bool" where
  "saldo_changed p t =
     (case p_saldo p of
        None \<Rightarrow> False
      | Some s \<Rightarrow> s \<noteq> EmptyString \<and> s \<noteq> Canonical (t_saldo t))"

text \<open>
  The last step of the handler, after the saldo is saved: the transaction is patched,
  unless the body does not cast; then the handler throws with the saldo written.
\<close>

definition patch_transaction :: "nat \<Rightarrow> patch \<Rightarrow> db \<Rightarrow> response \<times> db" where
  "patch_transaction i p dbs1 =
     (if patch_castable p
      then (Success,
            dbs1\<lparr>transactions := Transaction_findByIdAndUpdate i p (transactions dbs1)\<rparr>)
      else (ServerError, dbs1))"

text \<open>
  In the branch for a changed saldo the handler saves the new saldo only; the reverted
  original saldo is a local document that is never saved. \<open>Saldo.findById\<close> throws on a
  new saldo that does not cast, before anything is written.
\<close>

definition updateTransaction :: "db \<Rightarrow> nat \<Rightarrow> patch \<Rightarrow> response \<times> db" where
  "updateTransaction dbs i p =
     (if \<not> patch_ok p then (ValidationFailed, dbs)
      else case Transaction_findById (transactions dbs) i of
        None \<Rightarrow> (TransactionNotFound, dbs)
      | Some existingTransaction \<Rightarrow>
          (case Saldo_findById (saldos dbs) (t_saldo existingTransaction) of
             None \<Rightarrow> (OriginalSaldoNotFound, dbs)
           | Some sal0 \<Rightarrow>
               let sal = revert existingTransaction sal0 in
               if saldo_changed p existingTransaction then
                 (case Option.bind (p_saldo p) castObjectId of
                    None \<Rightarrow> (ServerError, dbs)
                  | Some newId \<Rightarrow>
                      (case Saldo_findById (saldos dbs) newId of
                         None \<Rightarrow> (NewSaldoNotFound, dbs)
                       | Some newSaldo \<Rightarrow>
                           (case apply_body p newSaldo of
                              None \<Rightarrow> (ServerError, dbs)
                            | Some newSaldo' \<Rightarrow>
                                patch_transaction i p
                                  (dbs\<lparr>saldos := Saldo_save newSaldo' (saldos dbs)\<rparr>))))
               else
                 (case apply_body p sal of
                    None \<Rightarrow> (ServerError, dbs)
                  | Some sal' \<Rightarrow>
                      patch_transaction i p
                        (dbs\<lparr>saldos := Saldo_save sal' (saldos dbs)\<rparr>))))"

subsection \<open>Deletion: \<open>router.delete("/:id")\<close>\<close>

definition deleteTransaction :: "db \<Rightarrow> nat \<Rightarrow> response \<times> db" where
  "deleteTransaction dbs i =
     (case Transaction_findById (transactions dbs) i of
        None \<Rightarrow> (TransactionNotFound, dbs)
      | Some t \<Rightarrow>
          (case Saldo_findById (saldos dbs) (t_saldo t) of
             None \<Rightarrow> (SaldoNotFound, dbs)
           | Some sal \<Rightarrow>
               (Success,
                dbs\<lparr>saldos := Saldo_save (revert t sal) (saldos dbs),
                    transactions := Transaction_deleteOne i (transactions dbs)\<rparr>)))"

subsection \<open>The ledger invariant\<close>

definition effect :: "transaction \<Rightarrow> int" where
  "effect t = (case t_type t of income \<Rightarrow> t_amount t | expense \<Rightarrow> - t_amount t)"

definition bound_sum :: "transaction list \<Rightarrow> nat \<Rightarrow> int" where
  "bound_sum ts i = sum_list (map effect (filter (\<lambda>t. t_saldo t = i) ts))"

definition ledger_consistent :: "db \<Rightarrow> bool" where
  "ledger_consistent dbs =
     list_all (\<lambda>s. s_amount s = bound_sum (transactions dbs) (s_id s)) (saldos dbs)"

section \<open>Category classifier\<close>

subsection \<open>The classifier and its files\<close>

text \<open>
  The classifier is an object of the \<open>bayes\<close> package. Its state is what it has
  learned, so it is the sequence of its \<open>learn(text, label)\<close> calls; \<open>bayes()\<close> is the
  empty sequence. What \<open>categorize\<close> answers is an argument of every function that
  asks: \<open>None\<close> is \<open>undefined\<close>.
\<close>

type_synonym classifier = "(string \<times> string) list"

type_synonym categorizer = "classifier \<Rightarrow> string \<Rightarrow> string option"

definition bayes :: classifier where
  "bayes = []"

definition learn :: "classifier \<Rightarrow> string \<times> string \<Rightarrow> classifier" where
  "learn c e = c @ [e]"

text \<open>
  A model file holds text that is blank, or that \<open>JSON.parse\<close> or \<open>bayes.fromJson\<close>
  refuses, or the encoding \<open>toJson\<close> of a classifier. A missing file is \<open>None\<close>.
\<close>

datatype file_content = Blank | Malformed | Encoded classifier

definition toJson :: "classifier \<Rightarrow> file_content" where
  "toJson c = Encoded c"

fun fromJson :: "file_content \<Rightarrow> classifier option" where
  "fromJson (Encoded c) = Some c"
| "fromJson Blank = None"
| "fromJson Malformed = None"

record service =
  classifier :: classifier
  isModelReady :: bool
  MODEL_PATH :: "file_content option"
  BACKUP_MODEL_PATH :: "file_content option"

subsection \<open>\<open>saveModel\<close> and \<open>loadModel\<close>\<close>

text \<open>
  \<open>saveModel\<close> copies the primary file to the backup when it exists, writes the
  primary file and answers true; a file call that throws is caught, and the answer is
  false. What the disk does is an argument: both calls succeed, or
  \<open>fs.copyFileSync\<close> throws, or \<open>fs.writeFileSync\<close> throws. The failing call leaves
  its target file in the state that the argument names.
\<close>

datatype disk =
    Writable
  | CopyFails "file_content option"
  | WriteFails "file_content option"

definition saveModel :: "disk \<Rightarrow> service \<Rightarrow> bool \<times> service" where
  "saveModel d sv =
     (let modelState = toJson (classifier sv) in
      case MODEL_PATH sv of
        None \<Rightarrow>
          (case d of
             WriteFails left \<Rightarrow> (False, sv\<lparr>MODEL_PATH := left\<rparr>)
           | _ \<Rightarrow> (True, sv\<lparr>MODEL_PATH := Some modelState\<rparr>))
      | Some old \<Rightarrow>
          (case d of
             CopyFails left \<Rightarrow> (False, sv\<lparr>BACKUP_MODEL_PATH := left\<rparr>)
           | WriteFails left \<Rightarrow>
               (False, sv\<lparr>BACKUP_MODEL_PATH := Some old, MODEL_PATH := left\<rparr>)
           | Writable \<Rightarrow>
               (True, sv\<lparr>BACKUP_MODEL_PATH := Some old, MODEL_PATH := Some modelState\<rparr>)))"

text \<open>
  In \<open>loadModel\<close> the file calls succeed. The primary file is read when it exists:
  blank text, and text that does not parse, throw into the handler that tries the
  backup. When the primary file does not exist the \<open>else\<close> branch starts a fresh
  classifier and returns at once.
\<close>

definition fresh_classifier :: "service \<Rightarrow> bool \<times> service" where
  "fresh_classifier sv =
     (let sv1 = sv\<lparr>classifier := bayes, isModelReady := False\<rparr>
      in (False, (case MODEL_PATH sv1 of
                    None \<Rightarrow> sv1
                  | Some _ \<Rightarrow> sv1\<lparr>MODEL_PATH := None\<rparr>)))"

definition load_backup :: "service \<Rightarrow> bool \<times> service" where
  "load_backup sv =
     (case BACKUP_MODEL_PATH sv of
        None \<Rightarrow> fresh_classifier sv
      | Some backupData \<Rightarrow>
          (case fromJson backupData of
             None \<Rightarrow> fresh_classifier sv
           | Some c \<Rightarrow>
               (True, sv\<lparr>classifier := c, isModelReady := True,
                         MODEL_PATH := Some backupData\<rparr>)))"

definition loadModel :: "service \<Rightarrow> bool \<times> service" where
  "loadModel sv =
     (case MODEL_PATH sv of
        None \<Rightarrow> (False, sv\<lparr>classifier := bayes, isModelReady := False\<rparr>)
      | Some modelData \<Rightarrow>
          if modelData = Blank then load_backup sv
          else (case fromJson modelData of
                  None \<Rightarrow> load_backup sv
                | Some c \<Rightarrow> (True, sv\<lparr>classifier := c, isModelReady := True\<rparr>)))"

subsection \<open>Training examples\<close>

text \<open>
  The letters with a lower case are \<open>A\<close> to \<open>Z\<close> and the code units 192 to 222 but for
  215, the multiplication sign; the lower case is 32 further on.
\<close>

definition toLowerCase_char :: "char \<Rightarrow> char" where
  "toLowerCase_char c =
     (let n = (of_char c :: nat) in
      if (65 \<le> n \<and> n \<le> 90) \<or> (192 \<le> n \<and> n \<le> 222 \<and> n \<noteq> 215)
      then char_of (n + 32) else c)"

definition toLowerCase :: "string \<Rightarrow> string" where
  "toLowerCase s = map toLowerCase_char s"

fun type_name :: "ttype \<Rightarrow> string" where
  "type_name income = ''income''"
| "type_name expense = ''expense''"

definition inputText :: "string \<Rightarrow> ttype \<Rightarrow> string" where
  "inputText d ty = toLowerCase (d @ '' '' @ type_name ty)"

text \<open>\<open>tx.category?.name || "unknown"\<close> on the populated transaction.\<close>

definition categoryName :: "category list \<Rightarrow> transaction \<Rightarrow> string" where
  "categoryName cs t =
     (case find (\<lambda>c. c_id c = t_category t) cs of
        None \<Rightarrow> ''unknown''
      | Some c \<Rightarrow> if c_name c = [] then ''unknown'' else c_name c)"

definition example :: "category list \<Rightarrow> transaction \<Rightarrow> string \<times> string" where
  "example cs t = (inputText (t_description t) (t_type t), categoryName cs t)"

subsection \<open>\<open>trainClassifier\<close>\<close>

definition batchSize :: nat where
  "batchSize = 100"

text \<open>
  The loop of \<open>trainClassifier\<close>: one page of the transactions at a time, each
  transaction learned by the classifier that the loop is given, until a page is empty.
  The second component is \<open>trainedCount\<close>.
\<close>

function train_pages ::
  "category list \<Rightarrow> transaction list \<Rightarrow> nat \<Rightarrow> classifier \<times> nat \<Rightarrow> classifier \<times> nat" where
  "train_pages cs ts skip (c, trainedCount) =
     (let page = take batchSize (drop skip ts) in
      if page = [] then (c, trainedCount)
      else train_pages cs ts (skip + batchSize)
             (foldl learn c (map (example cs) page), trainedCount + length page))"
  by pat_completeness auto
termination
  by (relation "measure (\<lambda>(cs, ts, skip, acc). length ts - skip)")
     (auto simp: batchSize_def)

text \<open>
  The examples go to the module's own \<open>classifier\<close>: the loop starts from the live
  classifier of the service. The queries of the loop succeed.
\<close>

definition trainClassifier :: "disk \<Rightarrow> service \<Rightarrow> db \<Rightarrow> bool \<times> service" where
  "trainClassifier d sv dbs =
     (case train_pages (categories dbs) (transactions dbs) 0 (classifier sv, 0) of
        (c, trainedCount) \<Rightarrow>
          let sv1 = sv\<lparr>classifier := c\<rparr> in
          if trainedCount > 0 then
            (case saveModel d sv1 of
               (success, sv2) \<Rightarrow>
                 if success then (True, sv2\<lparr>isModelReady := True\<rparr>) else (False, sv2))
          else (False, sv1))"

subsection \<open>\<open>predictCategory\<close>\<close>

definition ensureModelReady :: "disk \<Rightarrow> service \<Rightarrow> db \<Rightarrow> bool \<times> service" where
  "ensureModelReady dk sv dbs =
     (if \<not> isModelReady sv then trainClassifier dk sv dbs else (True, sv))"

definition predictCategory ::
  "categorizer \<Rightarrow> disk \<Rightarrow> service \<Rightarrow> db \<Rightarrow> string \<Rightarrow> ttype \<Rightarrow> string \<times> service" where
  "predictCategory categorize dk sv dbs d ty =
     (let sv1 = (if \<not> isModelReady sv then snd (ensureModelReady dk sv dbs) else sv) in
      if isModelReady sv1 then
        (case categorize (classifier sv1) (inputText d ty) of
           None \<Rightarrow> (''uncategorized'', sv1)
         | Some prediction \<Rightarrow>
             (if prediction = [] then ''uncategorized'' else prediction, sv1))
      else (''uncategorized'', sv1))"

section \<open>Creation with a predicted category: \<open>router.post("/models")\<close>\<close>

subsection \<open>The category lookup\<close>

text \<open>
  The handler looks the category up with the regular expression
  \<open>new RegExp(`^${predictedCategoryName}$`, "i")\<close>: the predicted name is the source
  text of the pattern. The patterns modelled here are those made of the dot, which
  stands for any character but a line terminator, and of characters that stand for
  themselves; under the flag \<open>i\<close> a character matches in either case. A name with
  another character of the pattern syntax is outside the model: \<open>None\<close>.
\<close>

datatype atom = AnyChar | Lit char

definition syntax_char :: "char \<Rightarrow> bool" where
  "syntax_char c = (c \<in> set ''^$*+?()[]{}|'' \<or> (of_char c :: nat) = 92)"

fun pattern_of :: "string \<Rightarrow> atom list option" where
  "pattern_of [] = Some []"
| "pattern_of (c # cs) =
     (if syntax_char c then None
      else map_option ((#) (if c = CHR ''.'' then AnyChar else Lit c)) (pattern_of cs))"

definition line_terminator :: "char \<Rightarrow> bool" where
  "line_terminator c = ((of_char c :: nat) = 10 \<or> (of_char c :: nat) = 13)"

fun atom_matches :: "atom \<Rightarrow> char \<Rightarrow> bool" where
  "atom_matches AnyChar d = (\<not> line_terminator d)"
| "atom_matches (Lit c) d = (toLowerCase_char c = toLowerCase_char d)"

fun atoms_match :: "atom list \<Rightarrow> string \<Rightarrow> bool" where
  "atoms_match [] [] = True"
| "atoms_match (a # as) (d # ds) = (atom_matches a d \<and> atoms_match as ds)"
| "atoms_match [] (d # ds) = False"
| "atoms_match (a # as) [] = False"

definition Category_findOne ::
  "category list \<Rightarrow> string \<Rightarrow> ttype \<Rightarrow> category option option" where
  "Category_findOne cs predictedCategoryName ty =
     map_option (\<lambda>pat. find (\<lambda>c. atoms_match pat (c_name c) \<and> c_type c = ty) cs)
       (pattern_of predictedCategoryName)"

definition Category_create :: "string \<Rightarrow> ttype \<Rightarrow> string \<Rightarrow> db \<Rightarrow> category \<times> db" where
  "Category_create n ty d dbs =
     (let c = \<lparr>c_id = next_id dbs, c_name = n, c_type = ty, c_description = d\<rparr>
      in (c, dbs\<lparr>categories := categories dbs @ [c], next_id := Suc (next_id dbs)\<rparr>))"

text \<open>Step 4 of the handler: find or create the category.\<close>

definition findOrCreateCategory :: "db \<Rightarrow> string \<Rightarrow> ttype \<Rightarrow> (category \<times> db) option" where
  "findOrCreateCategory dbs predictedCategoryName ty =
     (case Category_findOne (categories dbs) predictedCategoryName ty of
        None \<Rightarrow> None
      | Some (Some predictedCategory) \<Rightarrow> Some (predictedCategory, dbs)
      | Some None \<Rightarrow>
          Some (Category_create (toLowerCase predictedCategoryName) ty
                  (''Auto-generated category for '' @ predictedCategoryName) dbs))"

subsection \<open>The handler\<close>

record model_body =
  m_user :: id_string
  m_saldo :: id_string
  m_amount :: int
  m_description :: string
  m_type :: ttype

text \<open>
  The answer is \<open>None\<close> where the predicted name is a pattern outside the model. The
  prediction and the category are made before the balance is checked, so that a
  rejected request may leave a trained classifier and a new category behind.
  \<open>Transaction.create\<close> comes last: when it rejects a user that does not cast, the
  saldo is already written.
\<close>

definition createTransactionWithModel ::
  "categorizer \<Rightarrow> disk \<Rightarrow> service \<Rightarrow> db \<Rightarrow> model_body \<Rightarrow>
   (response \<times> service \<times> db) option" where
  "createTransactionWithModel categorize dk sv dbs b =
     (if m_user b = EmptyString \<or> m_saldo b = EmptyString \<or>
         \<not> description_ok (m_description b)
      then Some (ValidationFailed, sv, dbs)
      else case castObjectId (m_saldo b) of
        None \<Rightarrow> Some (ServerError, sv, dbs)
      | Some saldoId \<Rightarrow>
      (case Saldo_findById (saldos dbs) saldoId of
        None \<Rightarrow> Some (SaldoNotFound, sv, dbs)
      | Some sal \<Rightarrow>
          (case predictCategory categorize dk sv dbs (m_description b) (m_type b) of
             (predictedCategoryName, sv1) \<Rightarrow>
               (case findOrCreateCategory dbs predictedCategoryName (m_type b) of
                  None \<Rightarrow> None
                | Some (predictedCategory, dbs1) \<Rightarrow>
                    let newAmount = (case m_type b of
                                       income \<Rightarrow> s_amount sal + m_amount b
                                     | expense \<Rightarrow> s_amount sal - m_amount b)
                    in if newAmount < 0 \<and> m_type b = expense
                       then Some (InsufficientBalance, sv1, dbs1)
                       else
                         let dbs2 = dbs1\<lparr>saldos :=
                                      Saldo_save (sal\<lparr>s_amount := newAmount\<rparr>) (saldos dbs1)\<rparr>
                         in (case castObjectId (m_user b) of
                               None \<Rightarrow> Some (ServerError, sv1, dbs2)
                             | Some user \<Rightarrow>
                                 Some (Success, sv1,
                                   Transaction_create user (c_id predictedCategory)
                                     saldoId (m_amount b) (m_description b) (m_type b)
                                     dbs2))))))"

section \<open>Model evaluation: \<open>router.post("/cross-validate")\<close>\<close>

subsection \<open>Numbers\<close>

text \<open>
  An accuracy is a JavaScript number, a double. A double is the rational number that
  is its value, and an operation answers the double that is nearest to the exact
  result, a tie going to the even significand of 53 bits. The exponent is not bounded:
  the numbers of this route are 0 or lie between \<open>1/500\<close> and \<open>500\<close>, far from
  overflow and from the subnormal numbers.
\<close>

definition pow2 :: "int \<Rightarrow> rat" where
  "pow2 e = (if 0 \<le> e then 2 ^ nat e else 1 / 2 ^ nat (- e))"

definition round_half_even :: "rat \<Rightarrow> int" where
  "round_half_even x =
     (let f = \<lfloor>x\<rfloor>; r = x - of_int f in
      if r < 1 / 2 then f
      else if 1 / 2 < r then f + 1
      else if even f then f else f + 1)"

text \<open>The exponent \<open>e\<close> of a positive number \<open>x\<close>: \<open>2^e \<le> x < 2^(e+1)\<close>.\<close>

definition exponent :: "rat \<Rightarrow> int" where
  "exponent x =
     (case quotient_of x of (a, b) \<Rightarrow>
        let d = bitlen a - bitlen b in if pow2 d \<le> x then d else d - 1)"

definition double_of :: "rat \<Rightarrow> rat" where
  "double_of x =
     (if x = 0 then 0
      else let ulp = pow2 (exponent \<bar>x\<bar> - 52)
           in sgn x * of_int (round_half_even (\<bar>x\<bar> / ulp)) * ulp)"

text \<open>\<open>a / b\<close> for a divisor that is not 0, and \<open>a + b\<close>.\<close>

definition js_div :: "rat \<Rightarrow> rat \<Rightarrow> rat" where
  "js_div a b = double_of (a / b)"

definition js_add :: "rat \<Rightarrow> rat \<Rightarrow> rat" where
  "js_add a b = double_of (a + b)"

text \<open>
  \<open>parseFloat(x.toFixed(4))\<close> for \<open>0 \<le> x\<close>: \<open>toFixed\<close> takes the integer \<open>n\<close> for which
  \<open>n / 10^4\<close> is nearest to the value of the double, the larger one of two, and
  \<open>parseFloat\<close> reads the decimal back as a double.
\<close>

definition toFixed4 :: "rat \<Rightarrow> rat" where
  "toFixed4 x = double_of (of_int \<lfloor>x * 10000 + 1 / 2\<rfloor> / 10000)"

subsection \<open>The route\<close>

text \<open>\<open>xs.slice(a, b)\<close> for indices that are not negative.\<close>

definition slice :: "nat \<Rightarrow> nat \<Rightarrow> 'a list \<Rightarrow> 'a list" where
  "slice a b xs = take (b - a) (drop a xs)"

definition testData :: "'a list \<Rightarrow> nat \<Rightarrow> nat \<Rightarrow> 'a list" where
  "testData ts foldSize i = slice (i * foldSize) ((i + 1) * foldSize) ts"

definition trainingData :: "'a list \<Rightarrow> nat \<Rightarrow> nat \<Rightarrow> 'a list" where
  "trainingData ts foldSize i =
     slice 0 (i * foldSize) ts @ drop ((i + 1) * foldSize) ts"

record fold_result =
  fold_number :: nat
  accuracy :: rat
  testSamples :: nat

record cv_data =
  cv_k :: nat
  averageAccuracy :: rat
  folds :: "fold_result list"
  totalSamples :: nat

text \<open>One round of the loop: a temporary classifier, trained and then tested.\<close>

definition run_fold ::
  "categorizer \<Rightarrow> category list \<Rightarrow> transaction list \<Rightarrow> nat \<Rightarrow> nat \<Rightarrow> fold_result" where
  "run_fold categorize cs ts foldSize i =
     (let tempClassifier = foldl learn bayes (map (example cs) (trainingData ts foldSize i));
          tested = testData ts foldSize i;
          correct = length (filter
            (\<lambda>t. categorize tempClassifier (inputText (t_description t) (t_type t)) =
                   Some (categoryName cs t)) tested);
          acc = js_div (of_nat correct) (of_nat (length tested))
      in \<lparr>fold_number = i + 1, accuracy = toFixed4 acc, testSamples = length tested\<rparr>)"

function cv_loop ::
  "categorizer \<Rightarrow> category list \<Rightarrow> transaction list \<Rightarrow> nat \<Rightarrow> nat \<Rightarrow> nat \<Rightarrow>
   fold_result list \<Rightarrow> fold_result list" where
  "cv_loop categorize cs ts foldSize k i results =
     (if i < k
      then cv_loop categorize cs ts foldSize k (i + 1)
             (results @ [run_fold categorize cs ts foldSize i])
      else results)"
  by pat_completeness auto
termination
  by (relation "measure (\<lambda>(categorize, cs, ts, foldSize, k, i, results). k - i)") auto

text \<open>
  \<open>req.body.k || 5\<close>: the number of folds is 5 when the body gives none, or gives 0.
  It is a natural number here.
\<close>

definition number_of_folds :: "nat option \<Rightarrow> nat" where
  "number_of_folds body_k = (case body_k of None \<Rightarrow> 5 | Some n \<Rightarrow> if n = 0 then 5 else n)"

text \<open>\<open>Transaction.find().populate("category").limit(500)\<close>\<close>

definition fetched :: "db \<Rightarrow> transaction list" where
  "fetched dbs = take 500 (transactions dbs)"

definition crossValidate :: "categorizer \<Rightarrow> db \<Rightarrow> nat option \<Rightarrow> response + cv_data" where
  "crossValidate categorize dbs body_k =
     (let k = number_of_folds body_k;
          ts = fetched dbs
      in if length ts < k * 2 then Inl InsufficientData
         else
           let foldSize = length ts div k;
               results = cv_loop categorize (categories dbs) ts foldSize k 0 [];
               avgAccuracy = js_div (foldl js_add 0 (map accuracy results))
                               (of_nat (length results))
           in Inr \<lparr>cv_k = k, averageAccuracy = toFixed4 avgAccuracy, folds = results,
                    totalSamples = length ts\<rparr>)"

section \<open>Example data\<close>

definition wallet :: "int \<Rightarrow> saldo" where
  "wallet a = \<lparr>s_id = 1, s_name = ''Wallet'', s_amount = a, s_description = ''cash''\<rparr>"

definition savings :: "int \<Rightarrow> saldo" where
  "savings a = \<lparr>s_id = 2, s_name = ''Savings'', s_amount = a, s_description = ''bank''\<rparr>"

definition tx :: "nat \<Rightarrow> nat \<Rightarrow> int \<Rightarrow> ttype \<Rightarrow> transaction" where
  "tx i s a ty = \<lparr>t_id = i, t_user = 0, t_category = 0, t_saldo = s, t_amount = a,
                 t_description = ''note'', t_type = ty\<rparr>"

definition body :: "nat \<Rightarrow> int \<Rightarrow> ttype \<Rightarrow> create_body" where
  "body s a ty = \<lparr>b_user = Canonical 0, b_category = Canonical 0, b_saldo = Canonical s,
                 b_amount = a, b_description = ''note'', b_type = ty\<rparr>"

definition no_patch :: patch where
  "no_patch = \<lparr>p_category = None, p_saldo = None, p_amount = None, p_description = None,
               p_type = None\<rparr>"

definition mkdb :: "saldo list \<Rightarrow> transaction list \<Rightarrow> nat \<Rightarrow> db" where
  "mkdb ss ts n = \<lparr>saldos = ss, transactions = ts, categories = [], next_id = n\<rparr>"

text \<open>A service that has learned one example, and a database with one transaction.\<close>

definition coffee_service :: service where
  "coffee_service =
     \<lparr>classifier = [(''coffee expense'', ''food'')], isModelReady = True,
      MODEL_PATH = Some (Encoded [(''coffee expense'', ''food'')]),
      BACKUP_MODEL_PATH = None\<rparr>"

definition food :: category where
  "food = \<lparr>c_id = 100, c_name = ''food'', c_type = expense, c_description = ''meals''\<rparr>"

definition lunch :: "nat \<Rightarrow> transaction" where
  "lunch i = \<lparr>t_id = i, t_user = 0, t_category = 100, t_saldo = 1, t_amount = 10,
              t_description = ''Lunch'', t_type = expense\<rparr>"

definition lunches :: "nat \<Rightarrow> db" where
  "lunches n = \<lparr>saldos = [wallet 500], transactions = map lunch [0..<n],
                categories = [food], next_id = 101\<rparr>"

definition service_with_files :: "file_content option \<Rightarrow> file_content option \<Rightarrow> service" where
  "service_with_files m b =
     \<lparr>classifier = [(''old expense'', ''misc'')], isModelReady = False, MODEL_PATH = m,
      BACKUP_MODEL_PATH = b\<rparr>"

definition abc_db :: db where
  "abc_db = \<lparr>saldos = [], transactions = [],
             categories =
               [\<lparr>c_id = 1, c_name = ''abc'', c_type = expense, c_description = ''x''\<rparr>],
             next_id = 2\<rparr>"

text \<open>A categorizer that answers the label it learned last, and nothing before it learned.\<close>

definition last_label :: categorizer where
  "last_label c text = (case rev c of [] \<Rightarrow> None | e # _ \<Rightarrow> Some (snd e))"

section \<open>The ledger\<close>

lemmas ledger_eval =
  wallet_def savings_def tx_def body_def no_patch_def mkdb_def
  createTransaction_def updateTransaction_def deleteTransaction_def
  description_ok_def patch_ok_def revert_def apply_body_def apply_patch_def
  saldo_changed_def patch_castable_def set_reference_def patch_transaction_def
  Saldo_findById_def Saldo_save_def Transaction_findById_def
  Transaction_deleteOne_def Transaction_create_def Transaction_findByIdAndUpdate_def
  ledger_consistent_def bound_sum_def effect_def

subsection \<open>Repository facts\<close>

lemma find_Saldo_save:
  "find (\<lambda>s. s_id s = i) ss = Some sal \<Longrightarrow> s_id sal' = i \<Longrightarrow>
   find (\<lambda>s. s_id s = i) (Saldo_save sal' ss) = Some sal'"
  by (induction ss) (auto simp: Saldo_save_def split: if_splits)

lemma Saldo_findById_id: "Saldo_findById ss i = Some sal \<Longrightarrow> s_id sal = i"
  by (auto simp: Saldo_findById_def find_Some_iff)

lemma Saldo_findById_save:
  "Saldo_findById ss i = Some sal \<Longrightarrow> s_id sal' = s_id sal \<Longrightarrow>
   Saldo_findById (Saldo_save sal' ss) i = Some sal'"
  using Saldo_findById_id [of ss i sal]
  by (simp add: Saldo_findById_def find_Saldo_save)

lemma Transaction_findById_deleteOne:
  "Transaction_findById (Transaction_deleteOne i ts) i = None"
  by (simp add: Transaction_findById_def Transaction_deleteOne_def find_None_iff)

lemma revert_amount: "s_amount (revert t sal) = s_amount sal - effect t"
  by (simp add: revert_def effect_def split: ttype.splits)

lemma revert_id: "s_id (revert t sal) = s_id sal"
  by (simp add: revert_def split: ttype.splits)

lemma revert_eq: "revert t sal = sal\<lparr>s_amount := s_amount sal - effect t\<rparr>"
  by (simp add: revert_def effect_def split: ttype.splits)

lemma bound_sum_append:
  "bound_sum (ts @ [t]) j = bound_sum ts j + (if t_saldo t = j then effect t else 0)"
  by (simp add: bound_sum_def)

subsection \<open>Creation keeps the ledger consistent\<close>

text \<open>
  A creation whose user and category cast keeps the ledger consistent. (One whose user
  or category does not cast writes the saldo and no transaction.)
\<close>

lemma createTransaction_consistent:
  assumes "ledger_consistent dbs"
    and "castObjectId (b_user b) = Some u" and "castObjectId (b_category b) = Some c"
  shows "ledger_consistent (snd (createTransaction dbs b))"
proof (cases "fst (createTransaction dbs b) = Success")
  case False
  then have "snd (createTransaction dbs b) = dbs"
    using assms(2,3)
    by (auto simp: createTransaction_def Let_def split: if_splits option.splits)
  with assms(1) show ?thesis by simp
next
  case True
  then obtain n sal where n: "castObjectId (b_saldo b) = Some n"
    and sal: "Saldo_findById (saldos dbs) n = Some sal"
    by (auto simp: createTransaction_def Let_def split: if_splits option.splits)
  from True have ok: "\<not> (b_user b = EmptyString \<or> b_category b = EmptyString \<or>
      b_saldo b = EmptyString \<or> \<not> description_ok (b_description b))"
    by (auto simp: createTransaction_def split: if_splits)
  from sal have id: "s_id sal = n" and mem: "sal \<in> set (saldos dbs)"
    by (auto simp: Saldo_findById_def find_Some_iff)
  from assms(1) mem have amt: "s_amount sal = bound_sum (transactions dbs) (s_id sal)"
    by (simp add: ledger_consistent_def list_all_iff)
  show ?thesis
    using assms ok n sal id amt
    by (cases "b_type b")
       (auto simp: createTransaction_def Let_def Transaction_create_def Saldo_save_def
                   ledger_consistent_def list_all_iff bound_sum_append effect_def)
qed

subsection \<open>Deletion\<close>

text \<open>
  Claim C10. Whenever the transaction and the saldo it is bound to exist, deletion
  commits: the answer is success, the saldo holds its amount with the effect of the
  transaction taken back, whatever the sign of the result, and the transaction is gone.
  No balance is validated, and deleting an income can leave a saldo that was not
  negative with a negative amount.
\<close>

theorem delete_always_commits:
  "(\<forall>dbs i t sal.
      Transaction_findById (transactions dbs) i = Some t \<longrightarrow>
      Saldo_findById (saldos dbs) (t_saldo t) = Some sal \<longrightarrow>
        fst (deleteTransaction dbs i) = Success \<and>
        Saldo_findById (saldos (snd (deleteTransaction dbs i))) (t_saldo t) =
          Some (sal\<lparr>s_amount := s_amount sal - effect t\<rparr>) \<and>
        Transaction_findById (transactions (snd (deleteTransaction dbs i))) i = None) \<and>
   (\<exists>dbs i t sal.
      Transaction_findById (transactions dbs) i = Some t \<and> t_type t = income \<and>
      Saldo_findById (saldos dbs) (t_saldo t) = Some sal \<and> 0 \<le> s_amount sal \<and>
      fst (deleteTransaction dbs i) = Success \<and>
      list_all (\<lambda>s. s_amount s < 0) (saldos (snd (deleteTransaction dbs i))))"
proof (intro conjI allI impI)
  fix dbs :: db and i :: nat and t :: transaction and sal :: saldo
  assume t: "Transaction_findById (transactions dbs) i = Some t"
    and s: "Saldo_findById (saldos dbs) (t_saldo t) = Some sal"
  have d: "deleteTransaction dbs i =
      (Success, dbs\<lparr>saldos := Saldo_save (revert t sal) (saldos dbs),
                    transactions := Transaction_deleteOne i (transactions dbs)\<rparr>)"
    using t s by (simp add: deleteTransaction_def)
  show "fst (deleteTransaction dbs i) = Success" by (simp add: d)
  show "Saldo_findById (saldos (snd (deleteTransaction dbs i))) (t_saldo t) =
          Some (sal\<lparr>s_amount := s_amount sal - effect t\<rparr>)"
    using Saldo_findById_save [OF s, of "revert t sal"] by (simp add: d revert_eq)
  show "Transaction_findById (transactions (snd (deleteTransaction dbs i))) i = None"
    by (simp add: d Transaction_findById_deleteOne)
next
  let ?dbs = "mkdb [wallet 30] [tx 2 1 50 income, tx 3 1 20 expense] 4"
  have "Transaction_findById (transactions ?dbs) 2 = Some (tx 2 1 50 income) \<and>
      t_type (tx 2 1 50 income) = income \<and>
      Saldo_findById (saldos ?dbs) (t_saldo (tx 2 1 50 income)) = Some (wallet 30) \<and>
      0 \<le> s_amount (wallet 30) \<and>
      fst (deleteTransaction ?dbs 2) = Success \<and>
      list_all (\<lambda>s. s_amount s < 0) (saldos (snd (deleteTransaction ?dbs 2)))"
    by (simp add: ledger_eval)
  then show "\<exists>dbs i t sal.
      Transaction_findById (transactions dbs) i = Some t \<and> t_type t = income \<and>
      Saldo_findById (saldos dbs) (t_saldo t) = Some sal \<and> 0 \<le> s_amount sal \<and>
      fst (deleteTransaction dbs i) = Success \<and>
      list_all (\<lambda>s. s_amount s < 0) (saldos (snd (deleteTransaction dbs i)))"
    by blast
qed

theorem delete_always_commits_witness:
  "Transaction_findById
     (transactions (mkdb [wallet 30] [tx 2 1 50 income, tx 3 1 20 expense] 4)) 2 =
     Some (tx 2 1 50 income) \<and>
   Saldo_findById (saldos (mkdb [wallet 30] [tx 2 1 50 income, tx 3 1 20 expense] 4)) 1 =
     Some (wallet 30) \<and>
   fst (deleteTransaction (mkdb [wallet 30] [tx 2 1 50 income, tx 3 1 20 expense] 4) 2) =
     Success \<and>
   Saldo_findById
     (saldos (snd (deleteTransaction
        (mkdb [wallet 30] [tx 2 1 50 income, tx 3 1 20 expense] 4) 2))) 1 =
     Some (wallet (- 20)) \<and>
   Transaction_findById
     (transactions (snd (deleteTransaction
        (mkdb [wallet 30] [tx 2 1 50 income, tx 3 1 20 expense] 4) 2))) 2 = None"
proof -
  let ?dbs = "mkdb [wallet 30] [tx 2 1 50 income, tx 3 1 20 expense] 4"
  have t: "Transaction_findById (transactions ?dbs) 2 = Some (tx 2 1 50 income)"
    by (simp add: mkdb_def tx_def Transaction_findById_def)
  have s: "Saldo_findById (saldos ?dbs) (t_saldo (tx 2 1 50 income)) = Some (wallet 30)"
    by (simp add: mkdb_def tx_def wallet_def Saldo_findById_def)
  from delete_always_commits [THEN conjunct1, rule_format, OF t s] t s
  show ?thesis by (simp add: tx_def wallet_def effect_def)
qed

subsection \<open>Plain creation\<close>

text \<open>
  Claim C2, at the request that the claim is about: an expense of 150 on a wallet of 100.
  The plain creation route has no balance check; it answers success, stores the wallet
  with the amount -50 and stores the transaction.
\<close>

theorem plain_create_overdraws:
  "createTransaction (mkdb [wallet 100] [] 2) (body 1 150 expense) =
     (Success, mkdb [wallet (- 50)] [tx 2 1 150 expense] 3)"
  by (simp add: ledger_eval)

subsection \<open>Update\<close>

text \<open>
  Claim C3, at an update that moves an income of 50 from the wallet to the savings: the
  reverted wallet is never saved, so the stored wallet keeps the amount 150 where the
  reversal is 100, while the savings receive the 50.
\<close>

theorem update_changed_saldo_keeps_original:
  "updateTransaction (mkdb [wallet 150, savings 0] [tx 3 1 50 income] 4) 3
     (no_patch\<lparr>p_saldo := Some (Canonical 2), p_amount := Some 50, p_type := Some income\<rparr>) =
     (Success, mkdb [wallet 150, savings 50] [tx 3 2 50 income] 4)"
  by (simp add: ledger_eval)

text \<open>
  Claim C4, at an update that gives the amount 80 and omits the type, for an income of 50
  on a wallet of 150: the stored transaction keeps its type and takes the amount 80, but
  the balance is only reverted, to 100, and nothing is applied again; with the type of
  the transaction the wallet would hold 180.
\<close>

theorem update_omitted_type_only_reverts:
  "updateTransaction (mkdb [wallet 150] [tx 2 1 50 income] 3) 2
     (no_patch\<lparr>p_amount := Some 80\<rparr>) =
     (Success, mkdb [wallet 100] [tx 2 1 80 income] 3)"
  by (simp add: ledger_eval)

text \<open>
  Claim C1, at a creation followed by an update: the ledger is consistent before and
  after the creation of an income of 50, and the update of its amount to 80 leaves the
  wallet at 0 with an income of 80 bound to it.
\<close>

theorem update_breaks_ledger:
  "ledger_consistent (mkdb [wallet 0] [] 2) \<and>
   createTransaction (mkdb [wallet 0] [] 2) (body 1 50 income) =
     (Success, mkdb [wallet 50] [tx 2 1 50 income] 3) \<and>
   ledger_consistent (mkdb [wallet 50] [tx 2 1 50 income] 3) \<and>
   updateTransaction (mkdb [wallet 50] [tx 2 1 50 income] 3) 2
     (no_patch\<lparr>p_amount := Some 80\<rparr>) =
     (Success, mkdb [wallet 0] [tx 2 1 80 income] 3) \<and>
   \<not> ledger_consistent (mkdb [wallet 0] [tx 2 1 80 income] 3)"
  by (simp add: ledger_eval)





subsection \<open>Where the ledger stays consistent\<close>

text \<open>
  With distinct transaction identifiers, deletion keeps the ledger consistent, and so
  does an update whose body gives the type and the amount, no saldo, and no category
  or one that casts.
\<close>

lemma bound_sum_deleteOne:
  "distinct (map t_id ts) \<Longrightarrow> t \<in> set ts \<Longrightarrow>
   bound_sum (Transaction_deleteOne (t_id t) ts) j =
     bound_sum ts j - (if t_saldo t = j then effect t else 0)"
proof (induction ts)
  case Nil
  then show ?case by simp
next
  case (Cons x ts)
  show ?case
  proof (cases "x = t")
    case True
    with Cons.prems have "t_id t \<notin> set (map t_id ts)" by simp
    then have "\<forall>y \<in> set ts. t_id y \<noteq> t_id t" by (metis image_eqI set_map)
    then have "Transaction_deleteOne (t_id t) ts = ts"
      by (simp add: Transaction_deleteOne_def filter_id_conv)
    with True show ?thesis by (simp add: bound_sum_def Transaction_deleteOne_def)
  next
    case False
    with Cons.prems have in_ts: "t \<in> set ts" and d: "distinct (map t_id ts)"
      and nx: "t_id x \<notin> set (map t_id ts)" by simp_all
    from in_ts nx have "t_id x \<noteq> t_id t" by (metis image_eqI set_map)
    with in_ts d have "t \<in> set ts" "t_id x \<noteq> t_id t" "distinct (map t_id ts)" by simp_all
    with Cons.IH show ?thesis
      by (simp add: bound_sum_def Transaction_deleteOne_def)
  qed
qed

lemma deleteTransaction_consistent:
  assumes "ledger_consistent dbs" and "distinct (map t_id (transactions dbs))"
  shows "ledger_consistent (snd (deleteTransaction dbs i))"
proof (cases "Transaction_findById (transactions dbs) i")
  case None
  with assms show ?thesis by (simp add: deleteTransaction_def)
next
  case (Some t)
  then have t: "t_id t = i" "t \<in> set (transactions dbs)"
    by (auto simp: Transaction_findById_def find_Some_iff)
  show ?thesis
  proof (cases "Saldo_findById (saldos dbs) (t_saldo t)")
    case None
    with assms Some show ?thesis by (simp add: deleteTransaction_def)
  next
    case sal: (Some sal)
    let ?ts' = "Transaction_deleteOne i (transactions dbs)"
    from sal have id: "s_id sal = t_saldo t" and mem: "sal \<in> set (saldos dbs)"
      by (auto simp: Saldo_findById_def find_Some_iff)
    have old: "\<And>x. x \<in> set (saldos dbs) \<Longrightarrow> s_amount x = bound_sum (transactions dbs) (s_id x)"
      using assms(1) by (simp add: ledger_consistent_def list_all_iff)
    have del: "\<And>j. bound_sum ?ts' j =
        bound_sum (transactions dbs) j - (if t_saldo t = j then effect t else 0)"
      using bound_sum_deleteOne [OF assms(2) t(2)] t(1) by simp
    have "s_amount y = bound_sum ?ts' (s_id y)"
      if "y \<in> set (Saldo_save (revert t sal) (saldos dbs))" for y
    proof -
      from that obtain x where x: "x \<in> set (saldos dbs)"
        and y: "y = (if s_id x = s_id (revert t sal) then revert t sal else x)"
        by (auto simp: Saldo_save_def)
      show ?thesis
      proof (cases "s_id x = s_id sal")
        case True
        with y have "y = revert t sal" by (simp add: revert_id)
        then show ?thesis using old [OF mem] id by (simp add: revert_amount revert_id del)
      next
        case False
        with y have "y = x" by (simp add: revert_id)
        then show ?thesis using old [OF x] False id by (simp add: del)
      qed
    qed
    then show ?thesis
      using Some sal by (simp add: deleteTransaction_def ledger_consistent_def list_all_iff)
  qed
qed

lemma bound_sum_Cons:
  "bound_sum (x # ts) j = (if t_saldo x = j then effect x else 0) + bound_sum ts j"
  by (simp add: bound_sum_def)

lemma findByIdAndUpdate_other:
  "\<forall>y \<in> set ts. t_id y \<noteq> i \<Longrightarrow> Transaction_findByIdAndUpdate i p ts = ts"
  by (induction ts) (simp_all add: Transaction_findByIdAndUpdate_def)

lemma bound_sum_findByIdAndUpdate:
  "distinct (map t_id ts) \<Longrightarrow> t \<in> set ts \<Longrightarrow>
   bound_sum (Transaction_findByIdAndUpdate (t_id t) p ts) j =
     bound_sum ts j - (if t_saldo t = j then effect t else 0)
       + (if t_saldo (apply_patch p t) = j then effect (apply_patch p t) else 0)"
proof (induction ts)
  case Nil
  then show ?case by simp
next
  case (Cons x ts)
  show ?case
  proof (cases "x = t")
    case True
    with Cons.prems have "t_id t \<notin> set (map t_id ts)" by simp
    then have "\<forall>y \<in> set ts. t_id y \<noteq> t_id t" by (metis image_eqI set_map)
    then have same: "Transaction_findByIdAndUpdate (t_id t) p ts = ts"
      by (rule findByIdAndUpdate_other)
    have "Transaction_findByIdAndUpdate (t_id t) p (x # ts) =
            apply_patch p t # Transaction_findByIdAndUpdate (t_id t) p ts"
      using True by (simp add: Transaction_findByIdAndUpdate_def)
    with same True show ?thesis by (simp add: bound_sum_Cons)
  next
    case False
    with Cons.prems have in_ts: "t \<in> set ts" and d: "distinct (map t_id ts)"
      and nx: "t_id x \<notin> set (map t_id ts)" by simp_all
    from in_ts nx have ne: "t_id x \<noteq> t_id t" by (metis image_eqI set_map)
    have "Transaction_findByIdAndUpdate (t_id t) p (x # ts) =
            x # Transaction_findByIdAndUpdate (t_id t) p ts"
      using ne by (simp add: Transaction_findByIdAndUpdate_def)
    with Cons.IH [OF d in_ts] show ?thesis by (simp add: bound_sum_Cons)
  qed
qed

lemma updateTransaction_consistent:
  assumes "ledger_consistent dbs" and "distinct (map t_id (transactions dbs))"
    and "p_type p = Some ty" and "p_amount p = Some a" and "p_saldo p = None"
    and "patch_castable p"
  shows "ledger_consistent (snd (updateTransaction dbs i p))"
proof (cases "fst (updateTransaction dbs i p) = Success")
  case False
  have "apply_body p s \<noteq> None" for s
    using assms(3,4) by (simp add: apply_body_def split: ttype.splits)
  with False assms(5,6) have "snd (updateTransaction dbs i p) = dbs"
    by (auto simp: updateTransaction_def patch_transaction_def saldo_changed_def Let_def
             split: if_splits option.splits)
  with assms(1) show ?thesis by simp
next
  case True
  then obtain t where t0: "Transaction_findById (transactions dbs) i = Some t"
    by (auto simp: updateTransaction_def split: if_splits option.splits)
  with True obtain sal where sal: "Saldo_findById (saldos dbs) (t_saldo t) = Some sal"
    by (auto simp: updateTransaction_def split: if_splits option.splits)
  from True have ok: "patch_ok p"
    by (auto simp: updateTransaction_def split: if_splits)
  from t0 have t: "t_id t = i" "t \<in> set (transactions dbs)"
    by (auto simp: Transaction_findById_def find_Some_iff)
  let ?t' = "apply_patch p t"
  let ?sal' = "sal\<lparr>s_amount := s_amount sal - effect t + effect ?t'\<rparr>"
  let ?ts' = "Transaction_findByIdAndUpdate i p (transactions dbs)"
  have t': "t_saldo ?t' = t_saldo t" "effect ?t' = (case ty of income \<Rightarrow> a | expense \<Rightarrow> - a)"
    using assms(3-5)
    by (simp_all add: apply_patch_def set_reference_def effect_def split: ttype.splits)
  have ab: "apply_body p (revert t sal) = Some ?sal'"
    using assms(3,4) t'(2) by (cases ty) (simp_all add: apply_body_def revert_eq)
  have u: "updateTransaction dbs i p = (Success, dbs\<lparr>saldos := Saldo_save ?sal' (saldos dbs),
                                                     transactions := ?ts'\<rparr>)"
    using ok t0 sal ab assms(5,6)
    by (simp add: updateTransaction_def patch_transaction_def saldo_changed_def Let_def)
  from sal have id: "s_id sal = t_saldo t" and mem: "sal \<in> set (saldos dbs)"
    by (auto simp: Saldo_findById_def find_Some_iff)
  have old: "\<And>x. x \<in> set (saldos dbs) \<Longrightarrow> s_amount x = bound_sum (transactions dbs) (s_id x)"
    using assms(1) by (simp add: ledger_consistent_def list_all_iff)
  have upd: "\<And>j. bound_sum ?ts' j =
      bound_sum (transactions dbs) j - (if t_saldo t = j then effect t else 0)
        + (if t_saldo t = j then effect ?t' else 0)"
    using bound_sum_findByIdAndUpdate [OF assms(2) t(2), of p] t(1) t'(1) by simp
  have "s_amount y = bound_sum ?ts' (s_id y)" if "y \<in> set (Saldo_save ?sal' (saldos dbs))" for y
  proof -
    from that obtain x where x: "x \<in> set (saldos dbs)"
      and y: "y = (if s_id x = s_id ?sal' then ?sal' else x)"
      by (auto simp: Saldo_save_def)
    show ?thesis
    proof (cases "s_id x = s_id sal")
      case True
      with y have "y = ?sal'" by simp
      then show ?thesis using old [OF mem] id by (simp add: upd)
    next
      case False
      with y have "y = x" by simp
      then show ?thesis using old [OF x] False id by (simp add: upd)
    qed
  qed
  then show ?thesis by (simp add: u ledger_consistent_def list_all_iff)
qed

section \<open>The classifier service\<close>

subsection \<open>Training\<close>

declare train_pages.simps [simp del]

lemma foldl_learn: "foldl learn c es = c @ es"
  by (induction es arbitrary: c) (simp_all add: learn_def)

text \<open>The pages of the loop make up the whole collection, from \<open>skip\<close> on.\<close>

lemma train_pages_all:
  "train_pages cs ts skip (c, n) =
     (c @ map (example cs) (drop skip ts), n + length (drop skip ts))"
proof (induction cs ts skip "(c, n)" arbitrary: c n rule: train_pages.induct)
  case (1 cs ts skip c n)
  let ?page = "take batchSize (drop skip ts)"
  show ?case
  proof (cases "?page = []")
    case True
    then have "drop skip ts = []" by (auto simp: batchSize_def)
    with True show ?thesis by (subst train_pages.simps) simp
  next
    case False
    have pages: "drop skip ts = ?page @ drop (skip + batchSize) ts"
      by (metis append_take_drop_id drop_drop add.commute)
    have "train_pages cs ts skip (c, n) =
            train_pages cs ts (skip + batchSize)
              (foldl learn c (map (example cs) ?page), n + length ?page)"
      using False by (subst train_pages.simps) (simp add: Let_def)
    also have "\<dots> = (foldl learn c (map (example cs) ?page) @
                       map (example cs) (drop (skip + batchSize) ts),
                     n + length ?page + length (drop (skip + batchSize) ts))"
      using 1 [OF refl False] by simp
    also have "\<dots> = (c @ map (example cs) (drop skip ts), n + length (drop skip ts))"
      by (subst (3 4) pages) (simp add: foldl_learn del: length_drop length_take)
    finally show ?thesis .
  qed
qed

lemma saveModel_classifier: "classifier (snd (saveModel d sv)) = classifier sv"
  by (simp add: saveModel_def Let_def split: option.splits disk.splits)

lemma saveModel_isModelReady: "isModelReady (snd (saveModel d sv)) = isModelReady sv"
  by (simp add: saveModel_def Let_def split: option.splits disk.splits)

lemma saveModel_success:
  "fst (saveModel d sv) =
     (case d of Writable \<Rightarrow> True | CopyFails left \<Rightarrow> MODEL_PATH sv = None
      | WriteFails left \<Rightarrow> False)"
  by (simp add: saveModel_def Let_def split: option.splits disk.splits)

lemma trainClassifier_unfold:
  "trainClassifier d sv dbs =
     (let sv1 = sv\<lparr>classifier :=
                  classifier sv @ map (example (categories dbs)) (transactions dbs)\<rparr>
      in if transactions dbs \<noteq> []
         then (if fst (saveModel d sv1)
               then (True, (snd (saveModel d sv1))\<lparr>isModelReady := True\<rparr>)
               else (False, snd (saveModel d sv1)))
         else (False, sv1))"
  by (simp add: trainClassifier_def train_pages_all Let_def split: prod.splits)

lemma trainClassifier_classifier:
  "classifier (snd (trainClassifier d sv dbs)) =
     classifier sv @ map (example (categories dbs)) (transactions dbs)"
  by (simp add: trainClassifier_unfold Let_def saveModel_classifier)

lemma lunch_example:
  "map (example (categories (lunches 1))) (transactions (lunches 1)) =
     [(''lunch expense'', ''food'')]"
  by code_simp

text \<open>
  Claim C7 as stated fails: the live classifier held one example before training on one
  transaction and holds both after it, whereas a new instance fed with the training
  examples holds the one.
\<close>

theorem train_in_place_counterexample:
  "classifier (snd (trainClassifier Writable coffee_service (lunches 1))) =
     [(''coffee expense'', ''food''), (''lunch expense'', ''food'')] \<and>
   foldl learn bayes (map (example (categories (lunches 1))) (transactions (lunches 1))) =
     [(''lunch expense'', ''food'')]"
  unfolding trainClassifier_classifier lunch_example foldl_learn
  by (simp add: coffee_service_def bayes_def)

text \<open>
  Claim C7 as amended. Training feeds every training example, in stored order, into the
  live classifier of the service, in place: after the call the classifier is what it
  was, followed by the examples of all transactions, whether or not the model file
  could be saved; it is what a new instance fed with these examples would be only if
  the live classifier was empty before. The call answers true exactly when there is a
  transaction and \<open>saveModel\<close> succeeds, that is, no file call of it throws. The service
  is ready after the call exactly when the call answers true or the service was ready
  before. With no transaction the service is left as it was. The queries of the
  transaction store are taken to succeed.
\<close>

theorem train_extends_live_classifier:
  "classifier (snd (trainClassifier d sv dbs)) =
     classifier sv @ map (example (categories dbs)) (transactions dbs) \<and>
   (classifier (snd (trainClassifier d sv dbs)) =
      foldl learn bayes (map (example (categories dbs)) (transactions dbs))) =
     (classifier sv = bayes) \<and>
   fst (trainClassifier d sv dbs) =
     (transactions dbs \<noteq> [] \<and>
      (case d of Writable \<Rightarrow> True | CopyFails left \<Rightarrow> MODEL_PATH sv = None
       | WriteFails left \<Rightarrow> False)) \<and>
   isModelReady (snd (trainClassifier d sv dbs)) =
     (fst (trainClassifier d sv dbs) \<or> isModelReady sv) \<and>
   snd (trainClassifier d sv (dbs\<lparr>transactions := []\<rparr>)) = sv"
proof (intro conjI)
  show "classifier (snd (trainClassifier d sv dbs)) =
     classifier sv @ map (example (categories dbs)) (transactions dbs)"
    by (rule trainClassifier_classifier)
  show "(classifier (snd (trainClassifier d sv dbs)) =
      foldl learn bayes (map (example (categories dbs)) (transactions dbs))) =
     (classifier sv = bayes)"
    by (simp add: trainClassifier_classifier foldl_learn bayes_def)
  show "fst (trainClassifier d sv dbs) =
     (transactions dbs \<noteq> [] \<and>
      (case d of Writable \<Rightarrow> True | CopyFails left \<Rightarrow> MODEL_PATH sv = None
       | WriteFails left \<Rightarrow> False))"
    by (simp add: trainClassifier_unfold Let_def saveModel_success split: disk.splits)
  show "isModelReady (snd (trainClassifier d sv dbs)) =
     (fst (trainClassifier d sv dbs) \<or> isModelReady sv)"
    by (simp add: trainClassifier_unfold Let_def saveModel_isModelReady)
  show "snd (trainClassifier d sv (dbs\<lparr>transactions := []\<rparr>)) = sv"
    by (simp add: trainClassifier_unfold)
qed

theorem train_extends_live_classifier_witness:
  "trainClassifier (WriteFails None) coffee_service (lunches 1) =
     (False, \<lparr>classifier = [(''coffee expense'', ''food''), (''lunch expense'', ''food'')],
              isModelReady = True, MODEL_PATH = None,
              BACKUP_MODEL_PATH = Some (Encoded [(''coffee expense'', ''food'')])\<rparr>) \<and>
   fst (trainClassifier Writable coffee_service (lunches 1)) \<and>
   snd (trainClassifier Writable coffee_service (lunches 0)) = coffee_service"
proof -
  have none: "lunches 0 = (lunches 0)\<lparr>transactions := []\<rparr>"
    by (simp add: lunches_def)
  have one: "transactions (lunches 1) \<noteq> []"
    by (simp add: lunches_def)
  have tr: "trainClassifier (WriteFails None) coffee_service (lunches 1) =
     (False, \<lparr>classifier = [(''coffee expense'', ''food''), (''lunch expense'', ''food'')],
              isModelReady = True, MODEL_PATH = None,
              BACKUP_MODEL_PATH = Some (Encoded [(''coffee expense'', ''food'')])\<rparr>)"
    unfolding trainClassifier_unfold lunch_example
    by (simp add: lunches_def coffee_service_def saveModel_def toJson_def Let_def)
  from train_extends_live_classifier [of Writable coffee_service "lunches 1"]
       train_extends_live_classifier [of Writable coffee_service "lunches 0"] none one tr
  show ?thesis by simp
qed

subsection \<open>Loading\<close>

text \<open>
  Claim C8 as stated fails: with the primary file missing and a backup that parses, no
  fallback is made. The service is not ready, its classifier is empty, and both files
  are as they were.
\<close>

theorem loadModel_missing_primary_counterexample:
  "loadModel (service_with_files None (Some (Encoded [(''lunch expense'', ''food'')]))) =
     (False, \<lparr>classifier = bayes, isModelReady = False, MODEL_PATH = None,
              BACKUP_MODEL_PATH = Some (Encoded [(''lunch expense'', ''food'')])\<rparr>)"
  by (simp add: loadModel_def service_with_files_def)

text \<open>
  Claim C8 as amended. A missing primary file: no fallback, an empty classifier, not
  ready, files untouched. A primary file that parses: ready with its model. A primary
  file that exists and is blank or does not parse: one attempt on the backup; when the
  backup parses the service is ready with the model of the backup and the primary file
  holds the text of the backup; when the backup is missing or does not parse the primary
  file is deleted and the service is not ready, with an empty classifier. In each case
  \<open>loadModel\<close> returns.
\<close>

theorem loadModel_cases:
  "(MODEL_PATH sv = None \<longrightarrow>
      loadModel sv = (False, sv\<lparr>classifier := bayes, isModelReady := False\<rparr>)) \<and>
   (\<forall>m c. MODEL_PATH sv = Some m \<and> fromJson m = Some c \<longrightarrow>
      loadModel sv = (True, sv\<lparr>classifier := c, isModelReady := True\<rparr>)) \<and>
   (\<forall>m b c. MODEL_PATH sv = Some m \<and> fromJson m = None \<and>
      BACKUP_MODEL_PATH sv = Some b \<and> fromJson b = Some c \<longrightarrow>
      loadModel sv =
        (True, sv\<lparr>classifier := c, isModelReady := True, MODEL_PATH := Some b\<rparr>)) \<and>
   (\<forall>m. MODEL_PATH sv = Some m \<and> fromJson m = None \<and>
      (case BACKUP_MODEL_PATH sv of None \<Rightarrow> True | Some b \<Rightarrow> fromJson b = None) \<longrightarrow>
      loadModel sv =
        (False, sv\<lparr>classifier := bayes, isModelReady := False, MODEL_PATH := None\<rparr>))"
  by (auto simp: loadModel_def load_backup_def fresh_classifier_def Let_def
           split: option.splits)

theorem loadModel_cases_witness:
  "loadModel (service_with_files (Some Malformed)
               (Some (Encoded [(''lunch expense'', ''food'')]))) =
     (True, \<lparr>classifier = [(''lunch expense'', ''food'')], isModelReady = True,
             MODEL_PATH = Some (Encoded [(''lunch expense'', ''food'')]),
             BACKUP_MODEL_PATH = Some (Encoded [(''lunch expense'', ''food'')])\<rparr>) \<and>
   loadModel (service_with_files (Some Blank) (Some Malformed)) =
     (False, \<lparr>classifier = bayes, isModelReady = False, MODEL_PATH = None,
              BACKUP_MODEL_PATH = Some Malformed\<rparr>) \<and>
   loadModel (service_with_files (Some (Encoded [(''tea expense'', ''food'')])) None) =
     (True, \<lparr>classifier = [(''tea expense'', ''food'')], isModelReady = True,
             MODEL_PATH = Some (Encoded [(''tea expense'', ''food'')]),
             BACKUP_MODEL_PATH = None\<rparr>)"
  using loadModel_cases
          [of "service_with_files (Some Malformed)
                 (Some (Encoded [(''lunch expense'', ''food'')]))"]
        loadModel_cases [of "service_with_files (Some Blank) (Some Malformed)"]
        loadModel_cases
          [of "service_with_files (Some (Encoded [(''tea expense'', ''food'')])) None"]
  by (simp add: service_with_files_def)

section \<open>The category lookup\<close>

lemmas resolver_eval = findOrCreateCategory_def Category_findOne_def Category_create_def
  syntax_char_def line_terminator_def toLowerCase_def toLowerCase_char_def

text \<open>
  Claim C6, at the predicted name \<open>a.c\<close> with an expense category \<open>abc\<close> stored: the
  name is read as a pattern, its dot matches the \<open>b\<close>, and the lookup answers the
  category \<open>abc\<close>; no category \<open>a.c\<close> is created.
\<close>

theorem lookup_reads_label_as_pattern:
  "findOrCreateCategory abc_db ''a.c'' expense =
     Some (\<lparr>c_id = 1, c_name = ''abc'', c_type = expense, c_description = ''x''\<rparr>, abc_db)"
  by (simp add: abc_db_def resolver_eval)

text \<open>
  For a name without a dot and without a character of the pattern syntax the lookup is
  equality of the lower-cased names.
\<close>

lemma pattern_of_literal:
  "\<forall>c \<in> set l. \<not> syntax_char c \<and> c \<noteq> CHR ''.'' \<Longrightarrow> pattern_of l = Some (map Lit l)"
  by (induction l) auto

lemma atoms_match_literal:
  "atoms_match (map Lit l) n \<longleftrightarrow> toLowerCase l = toLowerCase n"
  by (induction "map Lit l" n arbitrary: l rule: atoms_match.induct)
     (auto simp: toLowerCase_def)

lemma Category_findOne_literal:
  "\<forall>c \<in> set l. \<not> syntax_char c \<and> c \<noteq> CHR ''.'' \<Longrightarrow>
   Category_findOne cs l ty =
     Some (find (\<lambda>c. toLowerCase l = toLowerCase (c_name c) \<and> c_type c = ty) cs)"
  by (simp add: Category_findOne_def pattern_of_literal atoms_match_literal)

text \<open>
  The creation route with a prediction rejects an expense beyond the balance and leaves
  the saldos and the transactions as they were.
\<close>

lemma findOrCreateCategory_frame:
  "findOrCreateCategory dbs l ty = Some (c, dbs1) \<Longrightarrow>
   saldos dbs1 = saldos dbs \<and> transactions dbs1 = transactions dbs"
  by (auto simp: findOrCreateCategory_def Category_create_def Let_def split: option.splits)

lemma createTransactionWithModel_rejects:
  assumes "createTransactionWithModel categorize dk sv dbs b = Some (r, sv', dbs')"
    and "m_user b \<noteq> EmptyString" and "description_ok (m_description b)"
    and "castObjectId (m_saldo b) = Some n"
    and "Saldo_findById (saldos dbs) n = Some sal"
    and "m_type b = expense" and "s_amount sal < m_amount b"
  shows "r = InsufficientBalance \<and> saldos dbs' = saldos dbs \<and>
         transactions dbs' = transactions dbs"
proof -
  from assms(4) have ne: "m_saldo b \<noteq> EmptyString" by auto
  obtain l sv1 where
    p: "predictCategory categorize dk sv dbs (m_description b) (m_type b) = (l, sv1)"
    by (cases "predictCategory categorize dk sv dbs (m_description b) (m_type b)")
  show ?thesis
  proof (cases "findOrCreateCategory dbs l expense")
    case None
    with assms ne p show ?thesis by (simp add: createTransactionWithModel_def)
  next
    case (Some cd)
    obtain c dbs1 where cd: "cd = (c, dbs1)" by (cases cd)
    from Some cd findOrCreateCategory_frame [of dbs l expense c dbs1]
    have fr: "saldos dbs1 = saldos dbs \<and> transactions dbs1 = transactions dbs" by simp
    from assms ne p Some cd have "r = InsufficientBalance \<and> dbs' = dbs1"
      by (simp add: createTransactionWithModel_def)
    with fr show ?thesis by simp
  qed
qed

section \<open>Cross-validation\<close>

subsection \<open>Doubles\<close>

text \<open>
  The double of a positive number has a significand of 53 bits and is within half a
  unit in the last place of the number.
\<close>

lemma pow2_powi: "pow2 e = 2 powi e"
  by (simp add: pow2_def power_int_def power_inverse [symmetric] inverse_eq_divide power_one_over)

lemma pow2_pos: "0 < pow2 e"
  by (simp add: pow2_powi)

lemma pow2_add: "pow2 (a + b) = pow2 a * pow2 b"
  by (simp add: pow2_powi power_int_add)

lemma pow2_diff: "pow2 (a - b) = pow2 a / pow2 b"
  by (simp add: pow2_powi power_int_diff)

lemma pow2_nat: "0 \<le> e \<Longrightarrow> pow2 e = 2 ^ nat e"
  by (simp add: pow2_def)

lemma bitlen_rat:
  assumes "0 < a"
  shows "pow2 (bitlen a - 1) \<le> of_int a" and "of_int a < pow2 (bitlen a)"
proof -
  from bitlen_bounds [OF assms] have lo: "2 ^ nat (bitlen a - 1) \<le> a"
    and hi: "a < 2 ^ nat (bitlen a)" by simp_all
  have ge: "1 \<le> bitlen a" using assms by (auto simp: bitlen_alt_def)
  have "(of_int (2 ^ nat (bitlen a - 1)) :: rat) \<le> of_int a"
    using lo by (simp only: of_int_le_iff)
  then show "pow2 (bitlen a - 1) \<le> of_int a" using ge by (simp add: pow2_nat)
  have "(of_int a :: rat) < of_int (2 ^ nat (bitlen a))"
    using hi by (simp only: of_int_less_iff)
  then show "of_int a < pow2 (bitlen a)" using ge by (simp add: pow2_nat)
qed

lemma exponent_bounds:
  assumes "0 < x"
  shows "pow2 (exponent x) \<le> x \<and> x < pow2 (exponent x + 1)"
proof -
  obtain a b where q: "quotient_of x = (a, b)" by (cases "quotient_of x")
  then have b: "0 < b" and x: "x = of_int a / of_int b"
    by (simp_all add: quotient_of_denom_pos quotient_of_div)
  with assms have a: "0 < a" by (simp add: zero_less_divide_iff)
  let ?d = "bitlen a - bitlen b"
  have B: "0 < (of_int b :: rat)" using b by simp
  have up: "x < pow2 (?d + 1)"
  proof -
    have "x < pow2 (bitlen a) / of_int b"
      unfolding x using bitlen_rat(2) [OF a] B by (simp add: divide_strict_right_mono)
    also have "\<dots> \<le> pow2 (bitlen a) / pow2 (bitlen b - 1)"
      using bitlen_rat(1) [OF b] pow2_pos [of "bitlen a"] pow2_pos [of "bitlen b - 1"]
      by (simp add: frac_le)
    also have "\<dots> = pow2 (?d + 1)"
      by (simp add: pow2_diff [symmetric] algebra_simps)
    finally show ?thesis .
  qed
  have low: "pow2 (?d - 1) \<le> x"
  proof -
    have "pow2 (?d - 1) = pow2 (bitlen a - 1) / pow2 (bitlen b)"
      by (simp add: pow2_diff [symmetric] algebra_simps)
    also have "\<dots> \<le> of_int a / pow2 (bitlen b)"
      using bitlen_rat(1) [OF a] pow2_pos [of "bitlen b"] by (simp add: divide_right_mono)
    also have "\<dots> \<le> x"
      unfolding x using bitlen_rat(2) [OF b] B a by (simp add: frac_le)
    finally show ?thesis .
  qed
  show ?thesis
  proof (cases "pow2 ?d \<le> x")
    case True
    with up q show ?thesis by (simp add: exponent_def)
  next
    case False
    with low q show ?thesis by (simp add: exponent_def)
  qed
qed

lemma round_half_even_near: "\<bar>x - of_int (round_half_even x)\<bar> \<le> 1 / 2"
proof -
  have "of_int \<lfloor>x\<rfloor> \<le> x" "x < of_int \<lfloor>x\<rfloor> + 1" by linarith+
  then show ?thesis by (auto simp: round_half_even_def Let_def)
qed

lemma round_half_even_between:
  assumes "of_int lo \<le> x" and "x \<le> of_int hi"
  shows "lo \<le> round_half_even x \<and> round_half_even x \<le> hi"
proof -
  have f: "lo \<le> \<lfloor>x\<rfloor>" "\<lfloor>x\<rfloor> \<le> hi" using assms by (simp_all add: le_floor_iff floor_le_iff)
  have "\<lfloor>x\<rfloor> + 1 \<le> hi" if "x \<noteq> of_int \<lfloor>x\<rfloor>"
  proof -
    from that have "of_int \<lfloor>x\<rfloor> < x" using of_int_floor_le [of x] by linarith
    with assms(2) have "(of_int \<lfloor>x\<rfloor> :: rat) < of_int hi" by simp
    then show ?thesis by simp
  qed
  with f show ?thesis by (auto simp: round_half_even_def Let_def)
qed

lemma double_of_nearest:
  assumes "0 < x"
  defines "ulp \<equiv> pow2 (exponent x - 52)"
  shows "\<exists>m. double_of x = of_int m * ulp \<and> 2 ^ 52 \<le> m \<and> m \<le> 2 ^ 53 \<and>
             \<bar>x - double_of x\<bar> \<le> ulp / 2"
proof -
  let ?m = "round_half_even (x / ulp)"
  have u: "0 < ulp" by (simp add: ulp_def pow2_pos)
  have d: "double_of x = of_int ?m * ulp"
    using assms(1) by (simp add: double_of_def ulp_def Let_def)
  have e: "pow2 (exponent x) = 2 ^ 52 * ulp" "pow2 (exponent x + 1) = 2 ^ 53 * ulp"
    using pow2_add [of "exponent x - 52" 52] pow2_add [of "exponent x - 52" 53]
    by (simp_all add: ulp_def pow2_nat mult.commute add.commute)
  from exponent_bounds [OF assms(1)] e u
  have "2 ^ 52 \<le> x / ulp" "x / ulp \<le> 2 ^ 53"
    by (simp_all add: pos_le_divide_eq pos_divide_le_eq)
  then have "of_int (2 ^ 52) \<le> x / ulp" "x / ulp \<le> of_int (2 ^ 53)" by simp_all
  from round_half_even_between [OF this] have m: "2 ^ 52 \<le> ?m" "?m \<le> 2 ^ 53" by simp_all
  have "x - of_int ?m * ulp = (x / ulp - of_int ?m) * ulp"
    using u by (simp add: left_diff_distrib)
  then have "\<bar>x - of_int ?m * ulp\<bar> = \<bar>x / ulp - of_int ?m\<bar> * ulp"
    using u by (simp add: abs_mult abs_of_pos)
  also have "\<dots> \<le> (1 / 2) * ulp"
    using round_half_even_near [of "x / ulp"] u by (simp add: mult_right_mono)
  finally have "\<bar>x - double_of x\<bar> \<le> ulp / 2" by (simp add: d)
  with d m show ?thesis by blast
qed

text \<open>
  The numbers at work: \<open>3 / 160\<close> is a double just below \<open>0.01875\<close> and is rounded
  down; the mean of \<open>0\<close> and \<open>0.3333\<close> is a double just below \<open>0.16665\<close>; \<open>1 / 32\<close> is
  the double \<open>0.03125\<close> exactly, a tie that goes up.
\<close>

lemma toFixed4_examples:
  "toFixed4 (js_div 3 160) = double_of (187 / 10000)"
  "toFixed4 (js_div (js_add (js_add 0 0) (toFixed4 (js_div 1 3))) 2) =
     double_of (1666 / 10000)"
  "toFixed4 (js_div 1 32) = double_of (313 / 10000)"
  "toFixed4 (js_div 2 2) = 1"
  by code_simp+

subsection \<open>Folds\<close>

declare cv_loop.simps [simp del]

text \<open>The loop answers the folds \<open>0\<close> to \<open>k - 1\<close> in order.\<close>

lemma cv_loop_map:
  "cv_loop categorize cs ts foldSize k i results =
     results @ map (run_fold categorize cs ts foldSize) [i..<k]"
proof (induction categorize cs ts foldSize k i results rule: cv_loop.induct)
  case (1 categorize cs ts foldSize k i results)
  show ?case
  proof (cases "i < k")
    case True
    then show ?thesis
      using 1 by (subst cv_loop.simps) (simp add: upt_conv_Cons)
  next
    case False
    then show ?thesis by (subst cv_loop.simps) simp
  qed
qed

lemma testData_eq: "testData ts fs i = take fs (drop (i * fs) ts)"
  by (simp add: testData_def slice_def)

lemma trainingData_eq: "trainingData ts fs i = take (i * fs) ts @ drop ((i + 1) * fs) ts"
  by (simp add: trainingData_def slice_def)

lemma concat_testData: "concat (map (testData ts fs) [0..<k]) = take (k * fs) ts"
proof (induction k)
  case 0
  show ?case by simp
next
  case (Suc k)
  have "take (Suc k * fs) ts = take (k * fs) ts @ take fs (drop (k * fs) ts)"
    using take_add [of "k * fs" fs ts] by (simp add: add.commute)
  with Suc show ?case by (simp add: testData_eq)
qed

lemma fold_splits: "take (i * fs) ts @ testData ts fs i @ drop ((i + 1) * fs) ts = ts"
proof -
  have "testData ts fs i @ drop ((i + 1) * fs) ts = drop (i * fs) ts"
    unfolding testData_eq
    by (metis append_take_drop_id drop_drop mult.commute mult_Suc_right Suc_eq_plus1)
  then show ?thesis by simp
qed

lemma length_testData: "(i + 1) * fs \<le> length ts \<Longrightarrow> length (testData ts fs i) = fs"
  by (simp add: testData_eq)

text \<open>
  Claim C9 as stated fails: of 11 fetched transactions in 5 folds, each fold tests 2, and
  the last transaction is in no fold.
\<close>

theorem crossValidate_remainder_counterexample:
  "crossValidate last_label (lunches 11) (Some 5) =
     Inr \<lparr>cv_k = 5, averageAccuracy = 1,
          folds = [\<lparr>fold_number = 1, accuracy = 1, testSamples = 2\<rparr>,
                   \<lparr>fold_number = 2, accuracy = 1, testSamples = 2\<rparr>,
                   \<lparr>fold_number = 3, accuracy = 1, testSamples = 2\<rparr>,
                   \<lparr>fold_number = 4, accuracy = 1, testSamples = 2\<rparr>,
                   \<lparr>fold_number = 5, accuracy = 1, testSamples = 2\<rparr>],
          totalSamples = 11\<rparr> \<and>
   lunch 10 \<in> set (fetched (lunches 11)) \<and>
   lunch 10 \<notin> set (concat (map (testData (fetched (lunches 11)) 2) [0..<5]))"
  by code_simp

lemma fold_in_range:
  fixes i k n :: nat
  assumes "i < k"
  shows "(i + 1) * (n div k) \<le> n"
proof -
  have "(i + 1) * (n div k) \<le> k * (n div k)"
    using assms mult_le_mono1 [of "i + 1" k "n div k"] by simp
  also have "\<dots> \<le> n" by simp
  finally show ?thesis .
qed

lemma length_testData_fold:
  "i < k \<Longrightarrow> length (testData ts (length ts div k) i) = length ts div k"
  using fold_in_range [of i k "length ts"] by (simp add: length_testData)

text \<open>
  Claim C9 as amended. With \<open>k\<close> folds asked for, a positive integer that is 5 when
  the body gives none or 0, and \<open>n\<close> transactions fetched: for \<open>n < 2k\<close> the answer is
  \<open>InsufficientData\<close>. Otherwise the answer holds \<open>k\<close> fold results. Fold \<open>i\<close> is tested
  on the \<open>i\<close>-th block of \<open>n div k\<close> consecutive transactions, by a new classifier that
  has learned, in stored order, the examples (lower-cased description and type, name of
  the category) of all the fetched transactions before and after that block; its
  accuracy is the number of transactions of the block whose predicted label is the name
  of their category, divided by the size of the block as doubles are divided, and
  rounded to the nearest multiple of \<open>1/10000\<close>, a tie going up. The answer also holds
  the mean of the fold accuracies, summed and divided as doubles are and rounded in the
  same way. The blocks follow one another in stored order and make up the first
  \<open>n - n mod k\<close> transactions, so that every transaction is in at most one fold, and the
  last \<open>n mod k\<close> are in none: they are trained on in every fold and never tested.
\<close>

theorem crossValidate_folds:
  fixes categorize :: categorizer and dbs :: db and body_k :: "nat option"
  defines "k \<equiv> number_of_folds body_k"
      and "ts \<equiv> fetched dbs"
      and "cs \<equiv> categories dbs"
  defines "foldSize \<equiv> length ts div k"
  shows "(length ts < 2 * k \<longrightarrow> crossValidate categorize dbs body_k = Inl InsufficientData) \<and>
         (2 * k \<le> length ts \<longrightarrow>
            (\<exists>d. crossValidate categorize dbs body_k = Inr d \<and> cv_k d = k \<and>
                 totalSamples d = length ts \<and> length (folds d) = k \<and>
                 (\<forall>i<k. folds d ! i =
                    \<lparr>fold_number = i + 1,
                     accuracy =
                       double_of (of_int \<lfloor>double_of
                         (of_nat (length (filter
                            (\<lambda>t. categorize
                                   (map (\<lambda>u. (inputText (t_description u) (t_type u),
                                              categoryName cs u))
                                      (trainingData ts foldSize i))
                                   (inputText (t_description t) (t_type t)) =
                                 Some (categoryName cs t))
                            (testData ts foldSize i))) / of_nat foldSize)
                         * 10000 + 1 / 2\<rfloor> / 10000),
                     testSamples = foldSize\<rparr>) \<and>
                 averageAccuracy d =
                   double_of (of_int \<lfloor>double_of
                     (foldl (\<lambda>a b. double_of (a + b)) 0 (map accuracy (folds d)) / of_nat k)
                     * 10000 + 1 / 2\<rfloor> / 10000))) \<and>
         (\<forall>i<k. testData ts foldSize i = take foldSize (drop (i * foldSize) ts) \<and>
                length (testData ts foldSize i) = foldSize \<and>
                trainingData ts foldSize i =
                  take (i * foldSize) ts @ drop ((i + 1) * foldSize) ts \<and>
                take (i * foldSize) ts @ testData ts foldSize i @
                  drop ((i + 1) * foldSize) ts = ts) \<and>
         concat (map (testData ts foldSize) [0..<k]) = take (length ts - length ts mod k) ts"
    (is "(_ \<longrightarrow> ?few) \<and> (_ \<longrightarrow> ?enough) \<and> ?blocks \<and> ?cover")
proof (intro conjI impI)
  assume "length ts < 2 * k"
  then show ?few
    by (simp add: crossValidate_def Let_def k_def ts_def mult.commute)
next
  assume enough: "2 * k \<le> length ts"
  let ?d = "\<lparr>cv_k = k,
             averageAccuracy = toFixed4 (js_div
               (foldl js_add 0
                  (map accuracy (map (run_fold categorize cs ts foldSize) [0..<k])))
               (of_nat k)),
             folds = map (run_fold categorize cs ts foldSize) [0..<k],
             totalSamples = length ts\<rparr>"
  have cv: "crossValidate categorize dbs body_k = Inr ?d"
    using enough
    by (simp add: crossValidate_def Let_def k_def ts_def cs_def foldSize_def mult.commute
          cv_loop_map)
  have temp: "foldl learn bayes (map (example cs) xs) =
      map (\<lambda>u. (inputText (t_description u) (t_type u), categoryName cs u)) xs" for xs
    by (simp add: foldl_learn bayes_def example_def)
  have add: "js_add = (\<lambda>a b. double_of (a + b))"
    by (simp add: fun_eq_iff js_add_def)
  show ?enough
    by (rule exI [of _ ?d])
       (simp add: cv run_fold_def Let_def temp add toFixed4_def js_div_def
          length_testData_fold foldSize_def)
next
  show ?blocks
  proof (intro allI impI conjI)
    fix i assume "i < k"
    then show "length (testData ts foldSize i) = foldSize"
      by (simp add: length_testData_fold foldSize_def)
  qed (rule testData_eq trainingData_eq fold_splits)+
next
  have "k * foldSize = length ts - length ts mod k"
    by (simp add: foldSize_def minus_mod_eq_mult_div)
  then show ?cover
    by (simp add: concat_testData)
qed

lemma fetched_lunches: "n \<le> 500 \<Longrightarrow> fetched (lunches n) = map lunch [0..<n]"
  by (simp add: fetched_def lunches_def)

lemma four_folds:
  "crossValidate last_label (lunches 10) (Some 4) =
     Inr \<lparr>cv_k = 4, averageAccuracy = 1,
          folds = [\<lparr>fold_number = 1, accuracy = 1, testSamples = 2\<rparr>,
                   \<lparr>fold_number = 2, accuracy = 1, testSamples = 2\<rparr>,
                   \<lparr>fold_number = 3, accuracy = 1, testSamples = 2\<rparr>,
                   \<lparr>fold_number = 4, accuracy = 1, testSamples = 2\<rparr>],
          totalSamples = 10\<rparr>"
  by code_simp

theorem crossValidate_folds_witness:
  "2 * number_of_folds (Some 4) \<le> length (fetched (lunches 10)) \<and>
   crossValidate last_label (lunches 10) (Some 4) =
     Inr \<lparr>cv_k = 4, averageAccuracy = 1,
          folds = [\<lparr>fold_number = 1, accuracy = 1, testSamples = 2\<rparr>,
                   \<lparr>fold_number = 2, accuracy = 1, testSamples = 2\<rparr>,
                   \<lparr>fold_number = 3, accuracy = 1, testSamples = 2\<rparr>,
                   \<lparr>fold_number = 4, accuracy = 1, testSamples = 2\<rparr>],
          totalSamples = 10\<rparr> \<and>
   testData (fetched (lunches 10)) 2 3 = take 2 (drop 6 (fetched (lunches 10))) \<and>
   concat (map (testData (fetched (lunches 10)) 2) [0..<4]) = take 8 (fetched (lunches 10)) \<and>
   length (fetched (lunches 9)) < 2 * number_of_folds (Some 5) \<and>
   crossValidate last_label (lunches 9) (Some 5) = Inl InsufficientData"
proof -
  have k4: "number_of_folds (Some 4) = 4" and k5: "number_of_folds (Some 5) = 5"
    by (simp_all add: number_of_folds_def)
  have n10: "length (fetched (lunches 10)) = 10" and n9: "length (fetched (lunches 9)) = 9"
    by (simp_all add: fetched_lunches)
  from crossValidate_folds [of "lunches 10" "Some 4" last_label]
       crossValidate_folds [of "lunches 9" "Some 5" last_label] four_folds
  show ?thesis
    unfolding k4 k5 n10 n9 by auto
qed

end
